theory Spec2Isabelle
  imports Main "HOL-Library.Word" "HOL-Library.AList" "HOL-Library.Char_ord" "HOL-Library.List_Lexorder"
begin

section \<open>Bytes, identifiers and errors\<close>

text \<open>
  The store of \<^verbatim>\<open>token/storage_auth.go\<close> works on byte slices. A byte slice is a
  \<^typ>\<open>string\<close> here, an identifier (\<^verbatim>\<open>influxdb.ID\<close>, a \<^verbatim>\<open>uint64\<close>) a 64-bit word.
\<close>

type_synonym bytes = string

type_synonym ID = "64 word"

text \<open>
  Go errors are values. \<open>Error c m e\<close> is the struct literal
  \<^verbatim>\<open>&influxdb.Error{Code: c, Msg: m, Err: e}\<close>; the named errors and error
  constructors that the source refers to (\<^verbatim>\<open>ErrAuthNotFound\<close>,
  \<^verbatim>\<open>ErrInternalServiceError(err)\<close>, \<^verbatim>\<open>kv.NotUniqueError\<close>, ...) are declared
  outside the files at hand, so each is a constructor of its own name. The last group are
  the errors of the key-value store, of \<^verbatim>\<open>ID.Encode\<close>/\<^verbatim>\<open>ID.Decode\<close>, of the JSON
  functions and of the identifier generator.
\<close>

datatype errcode = EInvalid | ENotFound | EInternal | ENoCode

datatype error =
    Error errcode string "error option"
  | ErrInvalidAuthID
  | ErrAuthNotFound
  | ErrInternalServiceError error
  | ErrInvalidAuthIDError error
  | UnexpectedAuthIndexError error
  | ErrUnableToCreateToken
  | NotUniqueError
  | UnexpectedIndexError error
  | ErrKeyNotFound
  | StoreError string
  | ErrInvalidID
  | ErrInvalidIDLength
  | SyntaxError
  | UnmarshalTypeError
  | InvalidUnmarshalError
  | KeyPathNotFoundError
  | MalformedJsonError

text \<open>\<^verbatim>\<open>kv.IsNotFound(err)\<close>: the error is the store's not-found error.\<close>

definition IsNotFound :: "error \<Rightarrow> bool" where
  "IsNotFound e = (e = ErrKeyNotFound)"

subsection \<open>The text of an identifier\<close>

text \<open>
  Modelled from the spec: \<^verbatim>\<open>influxdb.ID\<close> and its methods are declared outside the
  files at hand. The spec calls the identifier ``opaque, fixed-width encodable'' and the
  primary bucket ``keyed by fixed-width encoded identifier''; the source shows that
  \<^verbatim>\<open>Valid\<close> can fail and that \<^verbatim>\<open>Encode\<close> and \<^verbatim>\<open>Decode\<close> return errors. An identifier
  is valid when it is not zero; its text is sixteen hexadecimal digits, most significant
  first, so that the order of the texts is the order of the identifiers.
\<close>

definition hexdigit :: "nat \<Rightarrow> char" where
  "hexdigit n = ''0123456789abcdef'' ! (n mod 16)"

definition hexval :: "char \<Rightarrow> nat option" where
  "hexval c =
     (let n = (of_char c :: nat) in
      if 48 \<le> n \<and> n \<le> 57 then Some (n - 48)
      else if 97 \<le> n \<and> n \<le> 102 then Some (n - 87)
      else if 65 \<le> n \<and> n \<le> 70 then Some (n - 55)
      else None)"

fun hex_of :: "nat \<Rightarrow> nat \<Rightarrow> bytes" where
  "hex_of 0 n = []"
| "hex_of (Suc w) n = hex_of w (n div 16) @ [hexdigit n]"

fun of_hex :: "nat \<Rightarrow> bytes \<Rightarrow> nat option" where
  "of_hex acc [] = Some acc"
| "of_hex acc (c # cs) =
     (case hexval c of None \<Rightarrow> None | Some d \<Rightarrow> of_hex (16 * acc + d) cs)"

definition Valid :: "ID \<Rightarrow> bool" where
  "Valid i = (i \<noteq> 0)"

definition id_text :: "ID \<Rightarrow> bytes" where
  "id_text i = hex_of 16 (unat i)"

definition id_of_text :: "bytes \<Rightarrow> ID option" where
  "id_of_text b = (if length b = 16 then map_option word_of_nat (of_hex 0 b) else None)"

definition Encode :: "ID \<Rightarrow> error + bytes" where
  "Encode i = (if Valid i then Inr (id_text i) else Inl ErrInvalidID)"

definition Decode :: "bytes \<Rightarrow> error + ID" where
  "Decode b =
     (if length b \<noteq> 16 then Inl ErrInvalidIDLength
      else case id_of_text b of
             None \<Rightarrow> Inl ErrInvalidID
           | Some i \<Rightarrow> if Valid i then Inr i else Inl ErrInvalidID)"

section \<open>The Authorization record and its JSON encoding\<close>

text \<open>
  Modelled from the spec: the struct \<^verbatim>\<open>influxdb.Authorization\<close>, its filter and its
  update are declared outside the files at hand. The fields are those of the spec's data
  model (identifier, token, organization, user, status, description, permission sequence,
  creation and last-update time), under the names the source uses. A status is a string
  (the source compares it with \<^verbatim>\<open>""\<close>). A permission entry and a time are opaque to
  the store: each is represented by the text that spells it in JSON.
\<close>

type_synonym status = string

definition Active :: status where
  "Active = ''active''"

definition Inactive :: status where
  "Inactive = ''inactive''"

datatype permission = Permission bytes

datatype time = Time bytes

record authorization =
  ID :: ID
  Token :: string
  Status :: status
  Description :: string
  OrgID :: ID
  UserID :: ID
  Permissions :: "permission list"
  CreatedAt :: time
  UpdatedAt :: time

record AuthorizationFilter =
  FilterID :: "ID option"
  FilterToken :: "string option"
  FilterOrgID :: "ID option"
  FilterUserID :: "ID option"

record AuthorizationUpdate =
  UpdStatus :: "status option"
  UpdDescription :: "string option"

text \<open>The zero values of Go: what a freshly allocated struct holds.\<close>

definition zero_permission :: permission where
  "zero_permission = Permission []"

definition zero_time :: time where
  "zero_time = Time ''0001-01-01T00:00:00Z''"

definition zero_authorization :: authorization where
  "zero_authorization =
     \<lparr>ID = 0, Token = [], Status = [], Description = [], OrgID = 0, UserID = 0,
      Permissions = [], CreatedAt = zero_time, UpdatedAt = zero_time\<rparr>"

text \<open>\<^verbatim>\<open>a.SetUpdatedAt(now)\<close> of the embedded \<^verbatim>\<open>CRUDLog\<close>.\<close>

definition SetUpdatedAt :: "authorization \<Rightarrow> time \<Rightarrow> authorization" where
  "SetUpdatedAt a now = a\<lparr>UpdatedAt := now\<rparr>"

subsection \<open>JSON values\<close>

text \<open>
  Modelled from the spec: \<^verbatim>\<open>encoding/json\<close>, \<^verbatim>\<open>buger/jsonparser\<close> and the
  repository's \<^verbatim>\<open>pkg/jsonparser\<close> are outside the files at hand. Stored bytes are
  represented by what they spell: either they are not a JSON object (\<open>Malformed\<close>), or
  they spell an object, the list of its members in the order written. A string value is
  kept as its raw text between the quotes, escapes unresolved, because that is what
  \<^verbatim>\<open>jsonparser.Get\<close> hands out (the source notes ``it is assumed that token never has
  escaped string data''). An array is the list of the raw texts of its elements; any other
  value (number, boolean, nested object) is its raw text.
\<close>

datatype jvalue = JString bytes | JNull | JArray "bytes list" | JRaw bytes

datatype jbytes = Malformed | Object "(string \<times> jvalue) list"

definition quote_char :: char where
  "quote_char = CHR 0x22"

definition backslash :: char where
  "backslash = CHR 0x5C"

text \<open>
  The characters the encoder writes as themselves: printable ASCII other than the quote,
  the backslash and the three characters \<^verbatim>\<open>encoding/json\<close> escapes for HTML.
\<close>

definition json_plain :: "char \<Rightarrow> bool" where
  "json_plain c =
     (let n = (of_char c :: nat) in
      32 \<le> n \<and> n < 127 \<and> c \<noteq> quote_char \<and> c \<noteq> backslash \<and>
      c \<noteq> CHR ''<'' \<and> c \<noteq> CHR ''>'' \<and> c \<noteq> CHR ''&'')"

definition escape_char :: "char \<Rightarrow> bytes" where
  "escape_char c =
     (if json_plain c then [c]
      else if c = quote_char \<or> c = backslash then [backslash, c]
      else [backslash, CHR ''u'', CHR ''0'', CHR ''0'',
            hexdigit (of_char c div 16), hexdigit (of_char c)])"

definition json_escape :: "string \<Rightarrow> bytes" where
  "json_escape s = concat (map escape_char s)"

fun json_unescape :: "bytes \<Rightarrow> string option" where
  "json_unescape [] = Some []"
| "json_unescape (c # cs) =
     (if c = quote_char then None
      else if c \<noteq> backslash then map_option ((#) c) (json_unescape cs)
      else (case cs of
              [] \<Rightarrow> None
            | d # ds \<Rightarrow>
                if d = quote_char \<or> d = backslash then map_option ((#) d) (json_unescape ds)
                else if d \<noteq> CHR ''u'' then None
                else (case ds of
                        z1 # z2 # h # l # rest \<Rightarrow>
                          if hexval z1 = Some 0 \<and> hexval z2 = Some 0 then
                            (case hexval h of
                               None \<Rightarrow> None
                             | Some x \<Rightarrow>
                                 (case hexval l of
                                    None \<Rightarrow> None
                                  | Some y \<Rightarrow>
                                      map_option ((#) (char_of (16 * x + y)))
                                        (json_unescape rest)))
                          else None
                      | _ \<Rightarrow> None)))"

text \<open>The raw bytes \<^verbatim>\<open>jsonparser.Get\<close> returns for a value.\<close>

fun intercalate :: "bytes \<Rightarrow> bytes list \<Rightarrow> bytes" where
  "intercalate sep [] = []"
| "intercalate sep [x] = x"
| "intercalate sep (x # y # ys) = x @ sep @ intercalate sep (y # ys)"

fun raw_text :: "jvalue \<Rightarrow> bytes" where
  "raw_text (JString r) = r"
| "raw_text JNull = ''null''"
| "raw_text (JArray xs) = ''['' @ intercalate '','' xs @ '']''"
| "raw_text (JRaw r) = r"

definition jsonparser_Get :: "jbytes \<Rightarrow> string \<Rightarrow> error + bytes" where
  "jsonparser_Get data k =
     (case data of
        Malformed \<Rightarrow> Inl MalformedJsonError
      | Object ms \<Rightarrow>
          (case map_of ms k of
             None \<Rightarrow> Inl KeyPathNotFoundError
           | Some v \<Rightarrow> Inr (raw_text v)))"

text \<open>
  \<^verbatim>\<open>jsonp.GetID\<close>: the identifier at a key, or an error when the key is missing or its
  value is not the text of a valid identifier.
\<close>

definition jsonp_GetID :: "jbytes \<Rightarrow> string \<Rightarrow> error + ID" where
  "jsonp_GetID data k =
     (case jsonparser_Get data k of Inl e \<Rightarrow> Inl e | Inr v \<Rightarrow> Decode v)"

text \<open>
  \<^verbatim>\<open>jsonp.GetOptionalID\<close> returns \<^verbatim>\<open>(val, exists, err)\<close>: a missing key is
  \<^verbatim>\<open>exists = false\<close> with no error; a value that is not an identifier is an error.
\<close>

definition jsonp_GetOptionalID :: "jbytes \<Rightarrow> string \<Rightarrow> ID \<times> bool \<times> error option" where
  "jsonp_GetOptionalID data k =
     (case data of
        Malformed \<Rightarrow> (0, False, Some MalformedJsonError)
      | Object ms \<Rightarrow>
          (case map_of ms k of
             None \<Rightarrow> (0, False, None)
           | Some v \<Rightarrow>
               (case Decode (raw_text v) of
                  Inl e \<Rightarrow> (0, False, Some e)
                | Inr i \<Rightarrow> (i, True, None))))"

subsection \<open>Marshal and Unmarshal\<close>

text \<open>
  Modelled from the spec: \<^verbatim>\<open>json.Marshal\<close> ``produces a byte encoding of the full
  record''. Every field is written, under the key the hint predicates of the source read
  it by.
\<close>

definition perm_text :: "permission \<Rightarrow> bytes" where
  "perm_text p = (case p of Permission b \<Rightarrow> b)"

definition time_text :: "time \<Rightarrow> bytes" where
  "time_text t = (case t of Time b \<Rightarrow> b)"

definition json_members :: "authorization \<Rightarrow> (string \<times> jvalue) list" where
  "json_members a =
     [(''id'', JString (json_escape (id_text (ID a)))),
      (''token'', JString (json_escape (Token a))),
      (''status'', JString (json_escape (Status a))),
      (''description'', JString (json_escape (Description a))),
      (''orgID'', JString (json_escape (id_text (OrgID a)))),
      (''userID'', JString (json_escape (id_text (UserID a)))),
      (''permissions'', JArray (map perm_text (Permissions a))),
      (''createdAt'', JString (json_escape (time_text (CreatedAt a)))),
      (''updatedAt'', JString (json_escape (time_text (UpdatedAt a))))]"

definition json_Marshal :: "authorization \<Rightarrow> error + jbytes" where
  "json_Marshal a = Inr (Object (json_members a))"

text \<open>
  Reading one member into the struct. A \<^verbatim>\<open>null\<close> leaves a string, identifier or time
  as it is and empties a slice; a member of another type is an error; an unknown key is
  skipped.
\<close>

definition string_member :: "jvalue \<Rightarrow> error + string option" where
  "string_member v =
     (case v of
        JString r \<Rightarrow>
          (case json_unescape r of None \<Rightarrow> Inl SyntaxError | Some s \<Rightarrow> Inr (Some s))
      | JNull \<Rightarrow> Inr None
      | _ \<Rightarrow> Inl UnmarshalTypeError)"

definition id_member :: "jvalue \<Rightarrow> error + ID option" where
  "id_member v =
     (case string_member v of
        Inl e \<Rightarrow> Inl e
      | Inr None \<Rightarrow> Inr None
      | Inr (Some s) \<Rightarrow>
          (case id_of_text s of None \<Rightarrow> Inl ErrInvalidID | Some i \<Rightarrow> Inr (Some i)))"

definition set_string ::
  "jvalue \<Rightarrow> authorization \<Rightarrow> (string \<Rightarrow> authorization) \<Rightarrow> error + authorization" where
  "set_string v a upd =
     (case string_member v of
        Inl e \<Rightarrow> Inl e
      | Inr None \<Rightarrow> Inr a
      | Inr (Some s) \<Rightarrow> Inr (upd s))"

definition set_id ::
  "jvalue \<Rightarrow> authorization \<Rightarrow> (ID \<Rightarrow> authorization) \<Rightarrow> error + authorization" where
  "set_id v a upd =
     (case id_member v of
        Inl e \<Rightarrow> Inl e
      | Inr None \<Rightarrow> Inr a
      | Inr (Some i) \<Rightarrow> Inr (upd i))"

definition set_member :: "authorization \<Rightarrow> string \<times> jvalue \<Rightarrow> error + authorization" where
  "set_member a m =
     (case m of (k, v) \<Rightarrow>
        if k = ''id'' then set_id v a (\<lambda>i. a\<lparr>ID := i\<rparr>)
        else if k = ''token'' then set_string v a (\<lambda>s. a\<lparr>Token := s\<rparr>)
        else if k = ''status'' then set_string v a (\<lambda>s. a\<lparr>Status := s\<rparr>)
        else if k = ''description'' then set_string v a (\<lambda>s. a\<lparr>Description := s\<rparr>)
        else if k = ''orgID'' then set_id v a (\<lambda>i. a\<lparr>OrgID := i\<rparr>)
        else if k = ''userID'' then set_id v a (\<lambda>i. a\<lparr>UserID := i\<rparr>)
        else if k = ''permissions'' then
          (case v of
             JArray xs \<Rightarrow> Inr (a\<lparr>Permissions := map Permission xs\<rparr>)
           | JNull \<Rightarrow> Inr (a\<lparr>Permissions := []\<rparr>)
           | _ \<Rightarrow> Inl UnmarshalTypeError)
        else if k = ''createdAt'' then set_string v a (\<lambda>s. a\<lparr>CreatedAt := Time s\<rparr>)
        else if k = ''updatedAt'' then set_string v a (\<lambda>s. a\<lparr>UpdatedAt := Time s\<rparr>)
        else Inr a)"

fun set_members :: "authorization \<Rightarrow> (string \<times> jvalue) list \<Rightarrow> error + authorization" where
  "set_members a [] = Inr a"
| "set_members a (m # ms) =
     (case set_member a m of Inl e \<Rightarrow> Inl e | Inr a' \<Rightarrow> set_members a' ms)"

text \<open>
  \<^verbatim>\<open>json.Unmarshal(b, a)\<close> for a pointer \<^verbatim>\<open>a\<close> to a struct. The pointer may be
  \<^verbatim>\<open>nil\<close> (\<open>None\<close>): Unmarshal then returns an \<^verbatim>\<open>InvalidUnmarshalError\<close> and there is
  no struct to fill. With a struct behind the pointer, the members written in the bytes
  overwrite its fields and the other fields keep what they held.
\<close>

definition json_Unmarshal :: "jbytes \<Rightarrow> authorization option \<Rightarrow> error + authorization" where
  "json_Unmarshal b a =
     (case b of
        Malformed \<Rightarrow> Inl SyntaxError
      | Object ms \<Rightarrow>
          (case a of
             None \<Rightarrow> Inl InvalidUnmarshalError
           | Some a0 \<Rightarrow> set_members a0 ms))"

section \<open>The transactional key-value store\<close>

text \<open>
  Modelled from the spec: the store behind \<^verbatim>\<open>kv.Tx\<close>, \<^verbatim>\<open>kv.Bucket\<close> and
  \<^verbatim>\<open>kv.Cursor\<close> is an external capability: ``transactions; named buckets;
  byte-key/byte-value Put/Get/Delete; not-found signaling distinct from other errors;
  cursor enumeration with an optional predicate hint''. A transaction holds the two
  buckets of this store as association lists: the primary bucket from the text of an
  identifier to the stored record, the index bucket from a token to the text of an
  identifier. Every capability may fail: \<open>fails\<close> gives the message of the error, if
  any, that the store answers an operation with; such an error is never the not-found
  error, which a lookup returns exactly when the bucket does not hold the key. A cursor walks a bucket in ascending key order; the store
  may use the hint predicate to skip entries or ignore it (\<open>hint_honoured\<close>).
\<close>

datatype bucket_name = authBucket | authIndex

datatype kv_op =
    OpBucket bucket_name
  | OpGet bucket_name bytes
  | OpPut bucket_name bytes
  | OpDelete bucket_name bytes
  | OpCursor bucket_name

record tx =
  auth_bucket :: "(bytes \<times> jbytes) list"
  auth_index :: "(bytes \<times> bytes) list"
  fails :: "kv_op \<Rightarrow> string option"
  hint_honoured :: bool

type_synonym CursorPredicateFunc = "bytes \<Rightarrow> jbytes \<Rightarrow> bool"

definition tx_Bucket :: "tx \<Rightarrow> bucket_name \<Rightarrow> error option" where
  "tx_Bucket t n =
     (case fails t (OpBucket n) of Some m \<Rightarrow> Some (StoreError m) | None \<Rightarrow> None)"

definition auth_Get :: "tx \<Rightarrow> bytes \<Rightarrow> error + jbytes" where
  "auth_Get t k =
     (case fails t (OpGet authBucket k) of
        Some m \<Rightarrow> Inl (StoreError m)
      | None \<Rightarrow>
          (case map_of (auth_bucket t) k of None \<Rightarrow> Inl ErrKeyNotFound | Some v \<Rightarrow> Inr v))"

definition index_Get :: "tx \<Rightarrow> bytes \<Rightarrow> error + bytes" where
  "index_Get t k =
     (case fails t (OpGet authIndex k) of
        Some m \<Rightarrow> Inl (StoreError m)
      | None \<Rightarrow>
          (case map_of (auth_index t) k of None \<Rightarrow> Inl ErrKeyNotFound | Some v \<Rightarrow> Inr v))"

text \<open>The error result alone of \<^verbatim>\<open>bucket.Get(key)\<close>, for a bucket given by name.\<close>

fun Get_error :: "tx \<Rightarrow> bucket_name \<Rightarrow> bytes \<Rightarrow> error option" where
  "Get_error t authBucket k = (case auth_Get t k of Inl e \<Rightarrow> Some e | Inr _ \<Rightarrow> None)"
| "Get_error t authIndex k = (case index_Get t k of Inl e \<Rightarrow> Some e | Inr _ \<Rightarrow> None)"

definition auth_Put :: "tx \<Rightarrow> bytes \<Rightarrow> jbytes \<Rightarrow> error + tx" where
  "auth_Put t k v =
     (case fails t (OpPut authBucket k) of
        Some m \<Rightarrow> Inl (StoreError m)
      | None \<Rightarrow> Inr (t\<lparr>auth_bucket := AList.update k v (auth_bucket t)\<rparr>))"

definition index_Put :: "tx \<Rightarrow> bytes \<Rightarrow> bytes \<Rightarrow> error + tx" where
  "index_Put t k v =
     (case fails t (OpPut authIndex k) of
        Some m \<Rightarrow> Inl (StoreError m)
      | None \<Rightarrow> Inr (t\<lparr>auth_index := AList.update k v (auth_index t)\<rparr>))"

definition auth_Delete :: "tx \<Rightarrow> bytes \<Rightarrow> error + tx" where
  "auth_Delete t k =
     (case fails t (OpDelete authBucket k) of
        Some m \<Rightarrow> Inl (StoreError m)
      | None \<Rightarrow> Inr (t\<lparr>auth_bucket := AList.delete k (auth_bucket t)\<rparr>))"

definition index_Delete :: "tx \<Rightarrow> bytes \<Rightarrow> error + tx" where
  "index_Delete t k =
     (case fails t (OpDelete authIndex k) of
        Some m \<Rightarrow> Inl (StoreError m)
      | None \<Rightarrow> Inr (t\<lparr>auth_index := AList.delete k (auth_index t)\<rparr>))"

text \<open>
  \<^verbatim>\<open>b.Cursor(...)\<close> on the primary bucket: the entries the cursor will yield, first to
  last.
\<close>

definition auth_Cursor :: "tx \<Rightarrow> CursorPredicateFunc option \<Rightarrow> error + (bytes \<times> jbytes) list" where
  "auth_Cursor t pred =
     (case fails t (OpCursor authBucket) of
        Some m \<Rightarrow> Inl (StoreError m)
      | None \<Rightarrow>
          Inr (filter
                 (\<lambda>(k, v). case pred of
                              None \<Rightarrow> True
                            | Some p \<Rightarrow> if hint_honoured t then p k v else True)
                 (sort_key fst (auth_bucket t))))"

section \<open>The store of \<^verbatim>\<open>token/storage_auth.go\<close>\<close>

definition authIndexKey :: "string \<Rightarrow> bytes" where
  "authIndexKey n = n"

definition authIndexBucket :: "tx \<Rightarrow> error option" where
  "authIndexBucket t =
     (case tx_Bucket t authIndex of
        Some e \<Rightarrow> Some (UnexpectedAuthIndexError e)
      | None \<Rightarrow> None)"

definition initializeAuths :: "tx \<Rightarrow> error option" where
  "initializeAuths t =
     (case tx_Bucket t authBucket of
        Some e \<Rightarrow> Some e
      | None \<Rightarrow> authIndexBucket t)"

text \<open>
  \<^verbatim>\<open>encodeAuthorization\<close> writes the normalised status through its pointer, so it
  returns the record as the caller sees it afterwards beside the bytes.
\<close>

definition encodeAuthorization :: "authorization \<Rightarrow> error + (jbytes \<times> authorization)" where
  "encodeAuthorization a =
     (if Status a = Active \<or> Status a = Inactive then
        (case json_Marshal a of Inl e \<Rightarrow> Inl e | Inr v \<Rightarrow> Inr (v, a))
      else if Status a = [] then
        (let a' = a\<lparr>Status := Active\<rparr> in
         case json_Marshal a' of Inl e \<Rightarrow> Inl e | Inr v \<Rightarrow> Inr (v, a'))
      else Inl (Error EInvalid ''unknown authorization status'' None))"

text \<open>
  \<^verbatim>\<open>decodeAuthorization(b, a)\<close> fills the struct behind the pointer \<^verbatim>\<open>a\<close>; the
  pointer is \<open>None\<close> when it is \<^verbatim>\<open>nil\<close>.
\<close>

definition decodeAuthorization :: "jbytes \<Rightarrow> authorization option \<Rightarrow> error + authorization" where
  "decodeAuthorization b a =
     (case json_Unmarshal b a of
        Inl e \<Rightarrow> Inl e
      | Inr a' \<Rightarrow> Inr (if Status a' = [] then a'\<lparr>Status := Active\<rparr> else a'))"

text \<open>
  \<^verbatim>\<open>unique\<close> and \<^verbatim>\<open>uniqueAuthToken\<close>: \<open>None\<close> is Go's \<^verbatim>\<open>nil\<close> error.
\<close>

definition unique :: "tx \<Rightarrow> bucket_name \<Rightarrow> bytes \<Rightarrow> error option" where
  "unique t indexBucket indexKey =
     (case tx_Bucket t indexBucket of
        Some e \<Rightarrow> Some (UnexpectedIndexError e)
      | None \<Rightarrow>
          (case Get_error t indexBucket indexKey of
             None \<Rightarrow> Some NotUniqueError
           | Some e \<Rightarrow> if IsNotFound e then None else Some (UnexpectedIndexError e)))"

definition uniqueAuthToken :: "tx \<Rightarrow> authorization \<Rightarrow> error option" where
  "uniqueAuthToken t a =
     (let err = unique t authIndex (authIndexKey (Token a)) in
      if err = Some NotUniqueError then Some ErrUnableToCreateToken else err)"

text \<open>
  \<^verbatim>\<open>CreateAuthorization\<close>. The identifier generator \<^verbatim>\<open>s.generateSafeID\<close> is a
  capability of the store declared outside the files at hand: it is the parameter
  \<open>generateSafeID\<close>, which answers with an identifier or an error. The function returns
  its error, the transaction after its writes and the record behind the pointer.
\<close>

definition CreateAuthorization ::
  "(tx \<Rightarrow> error + ID) \<Rightarrow> tx \<Rightarrow> authorization \<Rightarrow> error option \<times> tx \<times> authorization" where
  "CreateAuthorization generateSafeID t a =
     (case (if \<not> Valid (ID a) then
              (case generateSafeID t of Inl e \<Rightarrow> None | Inr i \<Rightarrow> Some (a\<lparr>ID := i\<rparr>))
            else Some a) of
        None \<Rightarrow> (None, t, a)
      | Some a1 \<Rightarrow>
     (case encodeAuthorization a1 of
        Inl e \<Rightarrow> (Some (Error EInvalid [] (Some e)), t, a1)
      | Inr (v, a2) \<Rightarrow>
     (case Encode (ID a2) of
        Inl e \<Rightarrow> (Some (ErrInvalidAuthIDError e), t, a2)
      | Inr encodedID \<Rightarrow>
     (case authIndexBucket t of
        Some e \<Rightarrow> (Some e, t, a2)
      | None \<Rightarrow>
     (case uniqueAuthToken t a2 of
        Some e \<Rightarrow> (Some e, t, a2)
      | None \<Rightarrow>
     (case tx_Bucket t authBucket of
        Some e \<Rightarrow> (Some e, t, a2)
      | None \<Rightarrow>
     (case index_Put t (authIndexKey (Token a2)) encodedID of
        Inl e \<Rightarrow> (Some (Error EInternal [] (Some e)), t, a2)
      | Inr t1 \<Rightarrow>
     (case auth_Put t1 encodedID v of
        Inl e \<Rightarrow> (Some (Error ENoCode [] (Some e)), t1, a2)
      | Inr t2 \<Rightarrow> (None, t2, a2)))))))))"

text \<open>
  \<^verbatim>\<open>GetAuthorizationByID\<close>. Its result \<^verbatim>\<open>a\<close> is a named result of pointer type that
  the body never assigns, so \<^verbatim>\<open>decodeAuthorization(v, a)\<close> is called with \<^verbatim>\<open>nil\<close>.
\<close>

definition GetAuthorizationByID :: "tx \<Rightarrow> ID \<Rightarrow> error + authorization" where
  "GetAuthorizationByID t i =
     (case Encode i of
        Inl e \<Rightarrow> Inl ErrInvalidAuthID
      | Inr encodedID \<Rightarrow>
     (case tx_Bucket t authBucket of
        Some e \<Rightarrow> Inl (ErrInternalServiceError e)
      | None \<Rightarrow>
     (case auth_Get t encodedID of
        Inl e \<Rightarrow> if IsNotFound e then Inl ErrAuthNotFound else Inl (ErrInternalServiceError e)
      | Inr v \<Rightarrow>
     (case decodeAuthorization v None of
        Inl e \<Rightarrow> Inl (Error EInvalid [] (Some e))
      | Inr a \<Rightarrow> Inr a))))"

text \<open>
  \<^verbatim>\<open>GetAuthorizationByToken\<close> checks the error of the index lookup for not-found
  only: after any other error it goes on with the \<^verbatim>\<open>nil\<close> value the failed lookup
  returned.
\<close>

definition GetAuthorizationByToken :: "tx \<Rightarrow> string \<Rightarrow> error + authorization" where
  "GetAuthorizationByToken t token =
     (case authIndexBucket t of
        Some e \<Rightarrow> Inl e
      | None \<Rightarrow>
     (case index_Get t (authIndexKey token) of
        Inl e \<Rightarrow>
          if IsNotFound e then Inl (Error ENotFound ''authorization not found'' None)
          else (case Decode [] of
                  Inl e' \<Rightarrow> Inl (Error EInvalid [] (Some e'))
                | Inr i \<Rightarrow> GetAuthorizationByID t i)
      | Inr idKey \<Rightarrow>
          (case Decode idKey of
             Inl e' \<Rightarrow> Inl (Error EInvalid [] (Some e'))
           | Inr i \<Rightarrow> GetAuthorizationByID t i)))"

text \<open>
  \<^verbatim>\<open>forEachAuthorization\<close>. The callback of the source is a closure that may write
  to variables of its caller; here it takes the caller's state and returns it beside its
  verdict. The loop runs over the entries the cursor yields; each entry is decoded into a
  fresh struct whose permission slice holds 64 zero entries.
\<close>

definition new_authorization :: authorization where
  "new_authorization = zero_authorization\<lparr>Permissions := replicate 64 zero_permission\<rparr>"

fun forEach_loop ::
  "('s \<Rightarrow> authorization \<Rightarrow> bool \<times> 's) \<Rightarrow> (bytes \<times> jbytes) list \<Rightarrow> 's \<Rightarrow> error option \<times> 's" where
  "forEach_loop fn [] s = (None, s)"
| "forEach_loop fn ((k, v) # rest) s =
     (case decodeAuthorization v (Some new_authorization) of
        Inl e \<Rightarrow> (Some e, s)
      | Inr a \<Rightarrow>
          (case fn s a of
             (continue, s') \<Rightarrow> if \<not> continue then (None, s') else forEach_loop fn rest s'))"

definition forEachAuthorization ::
  "tx \<Rightarrow> CursorPredicateFunc option \<Rightarrow> ('s \<Rightarrow> authorization \<Rightarrow> bool \<times> 's) \<Rightarrow> 's
     \<Rightarrow> error option \<times> 's" where
  "forEachAuthorization t pred fn s =
     (case tx_Bucket t authBucket of
        Some e \<Rightarrow> (Some e, s)
      | None \<Rightarrow>
     (case auth_Cursor t pred of
        Inl e \<Rightarrow> (Some e, s)
      | Inr entries \<Rightarrow> forEach_loop fn entries s))"

text \<open>\<^verbatim>\<open>authorizationsPredicateFn\<close>: the hint predicate, \<open>None\<close> for Go's \<^verbatim>\<open>nil\<close>.\<close>

definition authorizationsPredicateFn :: "AuthorizationFilter \<Rightarrow> CursorPredicateFunc option" where
  "authorizationsPredicateFn f =
     (case FilterID f of
        Some exp \<Rightarrow>
          Some (\<lambda>_ val. case jsonp_GetID val ''id'' of Inl err \<Rightarrow> True | Inr got \<Rightarrow> got = exp)
      | None \<Rightarrow>
     (case FilterToken f of
        Some exp \<Rightarrow>
          Some (\<lambda>_ val. case jsonparser_Get val ''token'' of
                           Inl err \<Rightarrow> True
                         | Inr got \<Rightarrow> got = exp)
      | None \<Rightarrow>
     (let pred =
            (case FilterOrgID f of
               Some exp \<Rightarrow>
                 Some (\<lambda>_ val. case jsonp_GetID val ''orgID'' of
                                  Inl err \<Rightarrow> True
                                | Inr got \<Rightarrow> got = exp)
             | None \<Rightarrow> None)
      in case FilterUserID f of
           Some exp \<Rightarrow>
             Some (\<lambda>key val.
               let prev = (case pred of None \<Rightarrow> True | Some prevFn \<Rightarrow> prevFn key val)
               in case jsonp_GetOptionalID val ''userID'' of
                    (got, exists, err) \<Rightarrow> prev \<and> ((exp = got \<and> exists) \<or> err \<noteq> None))
         | None \<Rightarrow> pred)))"

text \<open>\<^verbatim>\<open>filterAuthorizationsFn\<close>: the filter on the decoded record.\<close>

definition filterAuthorizationsFn :: "AuthorizationFilter \<Rightarrow> authorization \<Rightarrow> bool" where
  "filterAuthorizationsFn f =
     (if FilterID f \<noteq> None then (\<lambda>a. Some (ID a) = FilterID f)
      else if FilterToken f \<noteq> None then (\<lambda>a. Some (Token a) = FilterToken f)
      else if FilterOrgID f \<noteq> None \<and> FilterUserID f \<noteq> None then
        (\<lambda>a. Some (OrgID a) = FilterOrgID f \<and> Some (UserID a) = FilterUserID f)
      else if FilterOrgID f \<noteq> None then (\<lambda>a. Some (OrgID a) = FilterOrgID f)
      else if FilterUserID f \<noteq> None then (\<lambda>a. Some (UserID a) = FilterUserID f)
      else (\<lambda>a. True))"

definition ListAuthorizations :: "tx \<Rightarrow> AuthorizationFilter \<Rightarrow> error + authorization list" where
  "ListAuthorizations t f =
     (case tx_Bucket t authBucket of
        Some e \<Rightarrow> Inl e
      | None \<Rightarrow>
     (let pred = authorizationsPredicateFn f;
          filterFn = filterAuthorizationsFn f
      in case forEachAuthorization t pred
                (\<lambda>as a. (True, if filterFn a then as @ [a] else as)) [] of
           (Some e, as) \<Rightarrow> Inl e
         | (None, as) \<Rightarrow> Inr as))"

text \<open>
  \<^verbatim>\<open>UpdateAuthorization\<close>; \<open>now\<close> is what \<^verbatim>\<open>time.Now()\<close> returns. The body after the
  lookup is a definition of its own (\<open>UpdateAuthorization_found\<close>). It encodes the record
  first and applies the update to the struct afterwards.
\<close>

definition UpdateAuthorization_found ::
  "tx \<Rightarrow> authorization \<Rightarrow> AuthorizationUpdate \<Rightarrow> time \<Rightarrow> (error + authorization) \<times> tx" where
  "UpdateAuthorization_found t a upd now =
     (case encodeAuthorization a of
        Inl e \<Rightarrow> (Inl (Error EInvalid [] (Some e)), t)
      | Inr (v, a1) \<Rightarrow>
     (case Encode (ID a1) of
        Inl e \<Rightarrow> (Inl (Error ENotFound [] (Some e)), t)
      | Inr encodedID \<Rightarrow>
     (let a2 = (case UpdStatus upd of None \<Rightarrow> a1 | Some st \<Rightarrow> a1\<lparr>Status := st\<rparr>);
          a3 = (case UpdDescription upd of None \<Rightarrow> a2 | Some d \<Rightarrow> a2\<lparr>Description := d\<rparr>);
          a4 = SetUpdatedAt a3 now
      in
     (case authIndexBucket t of
        Some e \<Rightarrow> (Inl e, t)
      | None \<Rightarrow>
     (case index_Put t (authIndexKey (Token a4)) encodedID of
        Inl e \<Rightarrow> (Inl (Error EInternal [] (Some e)), t)
      | Inr t1 \<Rightarrow>
     (case tx_Bucket t1 authBucket of
        Some e \<Rightarrow> (Inl e, t1)
      | None \<Rightarrow>
     (case auth_Put t1 encodedID v of
        Inl e \<Rightarrow> (Inl (Error ENoCode [] (Some e)), t1)
      | Inr t2 \<Rightarrow> (Inr a4, t2))))))))"

definition UpdateAuthorization ::
  "tx \<Rightarrow> ID \<Rightarrow> AuthorizationUpdate \<Rightarrow> time \<Rightarrow> (error + authorization) \<times> tx" where
  "UpdateAuthorization t i upd now =
     (case GetAuthorizationByID t i of
        Inl e \<Rightarrow> (Inl (Error ENotFound [] (Some e)), t)
      | Inr a \<Rightarrow> UpdateAuthorization_found t a upd now)"

text \<open>\<^verbatim>\<open>DeleteAuthorization\<close>: any error of the lookup ends it with \<^verbatim>\<open>nil\<close>.\<close>

definition DeleteAuthorization :: "tx \<Rightarrow> ID \<Rightarrow> error option \<times> tx" where
  "DeleteAuthorization t i =
     (case GetAuthorizationByID t i of
        Inl e \<Rightarrow> (None, t)
      | Inr a \<Rightarrow>
     (case Encode i of
        Inl e \<Rightarrow> (Some ErrInvalidAuthID, t)
      | Inr encodedID \<Rightarrow>
     (case authIndexBucket t of
        Some e \<Rightarrow> (Some e, t)
      | None \<Rightarrow>
     (case tx_Bucket t authBucket of
        Some e \<Rightarrow> (Some e, t)
      | None \<Rightarrow>
     (case index_Delete t (Token a) of
        Inl e \<Rightarrow> (Some (ErrInternalServiceError e), t)
      | Inr t1 \<Rightarrow>
     (case auth_Delete t1 encodedID of
        Inl e \<Rightarrow> (Some (ErrInternalServiceError e), t1)
      | Inr t2 \<Rightarrow> (None, t2)))))))"

section \<open>Index consistency and the states the store reaches\<close>

text \<open>
  The record a stored value spells, read the way the one working read path of the source
  (\<^verbatim>\<open>forEachAuthorization\<close>) reads it.
\<close>

definition load :: "jbytes \<Rightarrow> error + authorization" where
  "load v = decodeAuthorization v (Some new_authorization)"

text \<open>
  Bidirectional consistency of the two buckets: every index entry leads from a token to
  the key of a primary record that carries this token and this identifier, and every
  primary record is stored under the text of its identifier and found in the index under
  its token.
\<close>

definition index_entry_ok :: "tx \<Rightarrow> bytes \<times> bytes \<Rightarrow> bool" where
  "index_entry_ok t e =
     (case e of (tok, idb) \<Rightarrow>
        (case map_of (auth_bucket t) idb of
           None \<Rightarrow> False
         | Some v \<Rightarrow>
             (case load v of
                Inl err \<Rightarrow> False
              | Inr a \<Rightarrow> Token a = tok \<and> Encode (ID a) = Inr idb)))"

definition primary_entry_ok :: "tx \<Rightarrow> bytes \<times> jbytes \<Rightarrow> bool" where
  "primary_entry_ok t e =
     (case e of (k, v) \<Rightarrow>
        (case load v of
           Inl err \<Rightarrow> False
         | Inr a \<Rightarrow> Encode (ID a) = Inr k \<and> map_of (auth_index t) (Token a) = Some k))"

definition index_consistent :: "tx \<Rightarrow> bool" where
  "index_consistent t =
     (distinct (map fst (auth_index t)) \<and> distinct (map fst (auth_bucket t)) \<and>
      list_all (index_entry_ok t) (auth_index t) \<and>
      list_all (primary_entry_ok t) (auth_bucket t))"

text \<open>
  The states reached from an empty store by committed operations: an operation that
  returns an error is rolled back by the store, and between transactions the store may
  change how it fails. A create counts here only when the identifier the record ends up
  with has no primary entry yet.
\<close>

inductive reachable :: "tx \<Rightarrow> bool" where
  reach_empty:
    "reachable \<lparr>auth_bucket = [], auth_index = [], fails = f, hint_honoured = h\<rparr>"
| reach_environment:
    "reachable t \<Longrightarrow> reachable (t\<lparr>fails := f, hint_honoured := h\<rparr>)"
| reach_create:
    "reachable t \<Longrightarrow> CreateAuthorization g t a = (None, t', a') \<Longrightarrow>
     map_of (auth_bucket t) (id_text (ID a')) = None \<Longrightarrow> reachable t'"
| reach_update:
    "reachable t \<Longrightarrow> UpdateAuthorization t i upd now = (Inr a, t') \<Longrightarrow> reachable t'"
| reach_delete:
    "reachable t \<Longrightarrow> DeleteAuthorization t i = (None, t') \<Longrightarrow> reachable t'"

section \<open>Concrete stores and records\<close>

definition empty_tx :: "bool \<Rightarrow> tx" where
  "empty_tx h = \<lparr>auth_bucket = [], auth_index = [], fails = (\<lambda>_. None), hint_honoured = h\<rparr>"

definition no_generator :: "tx \<Rightarrow> error + ID" where
  "no_generator t = Inl (StoreError ''no identifier'')"

text \<open>The two records of the spec's filter scenario.\<close>

definition record_A :: authorization where
  "record_A =
     \<lparr>ID = 1, Token = ''a'', Status = Active, Description = [], OrgID = 10, UserID = 100,
      Permissions = [], CreatedAt = zero_time, UpdatedAt = zero_time\<rparr>"

definition record_B :: authorization where
  "record_B =
     \<lparr>ID = 2, Token = ''b'', Status = Active, Description = [], OrgID = 10, UserID = 200,
      Permissions = [], CreatedAt = zero_time, UpdatedAt = zero_time\<rparr>"

definition store_A :: "bool \<Rightarrow> tx" where
  "store_A h = fst (snd (CreateAuthorization no_generator (empty_tx h) record_A))"

definition store_B :: "bool \<Rightarrow> tx" where
  "store_B h = fst (snd (CreateAuthorization no_generator (empty_tx h) record_B))"

text \<open>The store of the scenario holds A and B; B was created first.\<close>

definition store_AB :: "bool \<Rightarrow> tx" where
  "store_AB h = fst (snd (CreateAuthorization no_generator (store_B h) record_A))"

text \<open>What a cursor that honours the hint of a filter does with an entry.\<close>

definition hint_accepts :: "AuthorizationFilter \<Rightarrow> bytes \<Rightarrow> jbytes \<Rightarrow> bool" where
  "hint_accepts f k v = (case authorizationsPredicateFn f of None \<Rightarrow> True | Some p \<Rightarrow> p k v)"

text \<open>The entries of the two buckets that belong to a token.\<close>

definition index_entries_for :: "tx \<Rightarrow> string \<Rightarrow> (bytes \<times> bytes) list" where
  "index_entries_for t tok = filter (\<lambda>e. fst e = authIndexKey tok) (auth_index t)"

definition primary_entries_for :: "tx \<Rightarrow> string \<Rightarrow> (bytes \<times> jbytes) list" where
  "primary_entries_for t tok =
     filter (\<lambda>e. case load (snd e) of Inl err \<Rightarrow> False | Inr a \<Rightarrow> Token a = tok)
       (auth_bucket t)"

section \<open>Basic facts\<close>

lemma hexval_hexdigit: "hexval (hexdigit n) = Some (n mod 16)"
proof -
  have "\<forall>k<16. hexval (''0123456789abcdef'' ! k) = Some k"
    by (simp add: hexval_def All_less_Suc numeral_eq_Suc del: One_nat_def)
  then show ?thesis by (simp add: hexdigit_def)
qed

lemma of_hex_append:
  "of_hex acc (xs @ ys) = (case of_hex acc xs of None \<Rightarrow> None | Some a \<Rightarrow> of_hex a ys)"
  by (induction xs arbitrary: acc) (auto split: option.splits)

lemma of_hex_hex_of: "of_hex acc (hex_of w n) = Some (acc * 16 ^ w + n mod 16 ^ w)"
proof (induction w arbitrary: n)
  case 0
  then show ?case by simp
next
  case (Suc w)
  have "(acc * 16 ^ w + n div 16 mod 16 ^ w) * 16 + n mod 16 = acc * 16 ^ Suc w + n mod 16 ^ Suc w"
    by (simp add: mod_mult2_eq algebra_simps)
  with Suc show ?case
    by (simp add: of_hex_append hexval_hexdigit algebra_simps)
qed

lemma length_hex_of: "length (hex_of w n) = w"
  by (induction w arbitrary: n) auto

lemma hex_of_numeral:
  "hex_of (numeral k) n = hex_of (pred_numeral k) (n div 16) @ [hexdigit n]"
  by (simp only: numeral_eq_Suc [of k] hex_of.simps)

lemma id_text_1: "id_text 1 = ''0000000000000001''"
  by (simp add: id_text_def hexdigit_def hex_of_numeral)

lemma decode_nil: "decodeAuthorization v None \<noteq> Inr a"
  by (simp add: decodeAuthorization_def json_Unmarshal_def split: jbytes.splits)

lemma GetAuthorizationByID_no_record: "GetAuthorizationByID t i \<noteq> Inr a"
  by (simp add: GetAuthorizationByID_def decode_nil split: sum.splits option.splits)

lemma encode_valid_status:
  "Status a = Active \<or> Status a = Inactive \<Longrightarrow>
   encodeAuthorization a = Inr (Object (json_members a), a)"
  by (auto simp: encodeAuthorization_def json_Marshal_def)

lemma create_A:
  "CreateAuthorization no_generator (empty_tx h) record_A =
     (None,
      \<lparr>auth_bucket = [(''0000000000000001'', Object (json_members record_A))],
       auth_index = [(''a'', ''0000000000000001'')],
       fails = (\<lambda>_. None), hint_honoured = h\<rparr>,
      record_A)"
  by (simp add: CreateAuthorization_def encode_valid_status Encode_def Valid_def id_text_1
      authIndexBucket_def tx_Bucket_def uniqueAuthToken_def unique_def index_Get_def
      IsNotFound_def index_Put_def auth_Put_def authIndexKey_def empty_tx_def record_A_def)

lemma store_A_eq:
  "store_A h =
      \<lparr>auth_bucket = [(''0000000000000001'', Object (json_members record_A))],
       auth_index = [(''a'', ''0000000000000001'')],
       fails = (\<lambda>_. None), hint_honoured = h\<rparr>"
  by (simp add: store_A_def create_A)

lemma get_A:
  "GetAuthorizationByID (store_A h) 1 = Inl (Error EInvalid [] (Some InvalidUnmarshalError))"
  by (simp add: store_A_eq GetAuthorizationByID_def Encode_def Valid_def id_text_1
      tx_Bucket_def auth_Get_def decodeAuthorization_def json_Unmarshal_def)

lemma Decode_text_1: "Decode ''0000000000000001'' = Inr 1"
  by (simp add: Decode_def id_of_text_def hexval_def Valid_def)

lemma get_token_A:
  "GetAuthorizationByToken (store_A h) ''a'' =
     Inl (Error EInvalid [] (Some InvalidUnmarshalError))"
  using get_A [of h]
  by (simp add: GetAuthorizationByToken_def authIndexBucket_def tx_Bucket_def index_Get_def
      authIndexKey_def Decode_text_1 store_A_eq)

lemma of_char_less_256: "(of_char c :: nat) < 256"
  by (cases c) (simp add: of_char_def)

lemma of_char_div_16: "(of_char c :: nat) div 16 mod 16 = of_char c div 16"
proof -
  have "(of_char c :: nat) < 16 * 16"
    using of_char_less_256 [of c] by simp
  then have "(of_char c :: nat) div 16 < 16"
    by (simp add: less_mult_imp_div_less)
  then show ?thesis by simp
qed

lemma char_facts:
  "quote_char \<noteq> backslash" "backslash \<noteq> quote_char" "CHR ''u'' \<noteq> quote_char"
  "CHR ''u'' \<noteq> backslash" "hexval (CHR ''0'') = Some 0"
  by (simp_all add: quote_char_def backslash_def hexval_def)

lemma unescape_plain:
  "c \<noteq> quote_char \<Longrightarrow> c \<noteq> backslash \<Longrightarrow>
   json_unescape (c # rest) = map_option ((#) c) (json_unescape rest)"
  by simp

lemma unescape_short:
  "c = quote_char \<or> c = backslash \<Longrightarrow>
   json_unescape (backslash # c # rest) = map_option ((#) c) (json_unescape rest)"
  using char_facts by auto

lemma unescape_long:
  "json_unescape (backslash # CHR ''u'' # CHR ''0'' # CHR ''0'' # hexdigit (of_char c div 16)
      # hexdigit (of_char c) # rest) = map_option ((#) c) (json_unescape rest)"
proof -
  have c: "char_of (16 * ((of_char c :: nat) div 16) + of_char c mod 16) = c"
    by simp
  show ?thesis
    using c by (simp add: char_facts hexval_hexdigit of_char_div_16)
qed

lemma unescape_escape_char:
  "json_unescape (escape_char c @ rest) = map_option ((#) c) (json_unescape rest)"
proof (cases "json_plain c")
  case True
  then have "c \<noteq> quote_char" "c \<noteq> backslash"
    by (simp_all add: json_plain_def Let_def)
  with True show ?thesis
    by (simp add: escape_char_def unescape_plain del: json_unescape.simps)
next
  case False
  show ?thesis
  proof (cases "c = quote_char \<or> c = backslash")
    case True
    with False show ?thesis
      by (simp add: escape_char_def unescape_short del: json_unescape.simps)
  next
    case False
    with \<open>\<not> json_plain c\<close> show ?thesis
      by (simp add: escape_char_def unescape_long del: json_unescape.simps)
  qed
qed

lemma unescape_escape: "json_unescape (json_escape s) = Some s"
  by (induction s) (simp_all add: json_escape_def unescape_escape_char del: json_unescape.simps(2))

lemma id_of_text_id_text: "id_of_text (id_text i) = Some i"
proof -
  have "unat i < 2 ^ 64"
    using unsigned_less [of i] by simp
  then have "unat i mod 16 ^ 16 = unat i" by simp
  then show ?thesis
    by (simp add: id_of_text_def id_text_def length_hex_of of_hex_hex_of)
qed

lemma length_id_text: "length (id_text i) = 16"
  by (simp add: id_text_def length_hex_of)

lemma Decode_id_text: "Valid i \<Longrightarrow> Decode (id_text i) = Inr i"
  by (simp add: Decode_def id_of_text_id_text length_id_text)

lemma string_member_escape: "string_member (JString (json_escape s)) = Inr (Some s)"
  by (simp add: string_member_def unescape_escape)

lemma hexdigit_plain: "json_plain (hexdigit n)"
proof -
  have "\<forall>k<16. json_plain (''0123456789abcdef'' ! k)"
    by (simp add: json_plain_def quote_char_def backslash_def All_less_Suc numeral_eq_Suc
        del: One_nat_def)
  then show ?thesis by (simp add: hexdigit_def)
qed

lemma hex_of_plain: "c \<in> set (hex_of w n) \<Longrightarrow> json_plain c"
  by (induction w arbitrary: n) (auto simp: hexdigit_plain)

lemma escape_plain: "(\<And>c. c \<in> set s \<Longrightarrow> json_plain c) \<Longrightarrow> json_escape s = s"
  by (induction s) (simp_all add: json_escape_def escape_char_def)

lemma escape_id_text: "json_escape (id_text i) = id_text i"
  by (rule escape_plain) (simp add: id_text_def hex_of_plain)

lemma id_member_text: "id_member (JString (json_escape (id_text i))) = Inr (Some i)"
  by (simp add: id_member_def string_member_escape id_of_text_id_text)

lemma permission_text: "Permission (perm_text p) = p"
  by (cases p) (simp add: perm_text_def)

lemma time_of_text: "Time (time_text t) = t"
  by (cases t) (simp add: time_text_def)

lemma set_members_json_members: "set_members a0 (json_members a) = Inr a"
  by (cases a, cases a0)
     (simp add: json_members_def set_member_def set_string_def set_id_def id_member_text
        string_member_escape permission_text time_of_text comp_def)

lemma decode_json_members:
  "decodeAuthorization (Object (json_members a)) (Some a0) =
     Inr (if Status a = [] then a\<lparr>Status := Active\<rparr> else a)"
  by (simp add: decodeAuthorization_def json_Unmarshal_def set_members_json_members)

lemma load_json_members:
  "load (Object (json_members a)) = Inr (if Status a = [] then a\<lparr>Status := Active\<rparr> else a)"
  by (simp add: load_def decode_json_members)

lemma status_facts: "Active \<noteq> []" "Inactive \<noteq> []" "Active \<noteq> Inactive"
  by (simp_all add: Active_def Inactive_def)

lemma record_A_fields:
  "ID record_A = 1" "Token record_A = ''a''" "Status record_A = Active"
  "OrgID record_A = 10" "UserID record_A = 100"
  by (simp_all add: record_A_def)

lemma record_B_fields:
  "ID record_B = 2" "Token record_B = ''b''" "Status record_B = Active"
  "OrgID record_B = 10" "UserID record_B = 200"
  by (simp_all add: record_B_def)

lemma encode_A: "encodeAuthorization record_A = Inr (Object (json_members record_A), record_A)"
  by (simp add: encode_valid_status record_A_fields)

lemma load_A: "load (Object (json_members record_A)) = Inr record_A"
  by (simp add: load_json_members record_A_fields status_facts)

lemma loop_all:
  "map (\<lambda>e. load (snd e)) es = map Inr as \<Longrightarrow> list_all p as \<Longrightarrow>
   forEach_loop (\<lambda>log a. (p a, log @ [a])) es log0 = (None, log0 @ as)"
proof (induction es arbitrary: as log0)
  case Nil
  then show ?case by simp
next
  case (Cons e es)
  obtain k v where e: "e = (k, v)" by (cases e)
  from Cons.prems obtain a as' where as: "as = a # as'" "load v = Inr a"
    "map (\<lambda>e. load (snd e)) es = map Inr as'" "p a" "list_all p as'"
    by (cases as) (auto simp: e)
  have "forEach_loop (\<lambda>log a. (p a, log @ [a])) es (log0 @ [a]) = (None, (log0 @ [a]) @ as')"
    using as by (intro Cons.IH)
  then show ?case
    using as by (simp add: e load_def [symmetric])
qed

lemma loop_stop:
  "map (\<lambda>e. load (snd e)) pre = map Inr as \<Longrightarrow> list_all p as \<Longrightarrow> load v = Inr a \<Longrightarrow> \<not> p a \<Longrightarrow>
   forEach_loop (\<lambda>log a. (p a, log @ [a])) (pre @ (k, v) # post) log0 = (None, log0 @ as @ [a])"
proof (induction pre arbitrary: as log0)
  case Nil
  then show ?case by (simp add: load_def [symmetric])
next
  case (Cons e es)
  obtain k' v' where e: "e = (k', v')" by (cases e)
  from Cons.prems obtain a' as' where as: "as = a' # as'" "load v' = Inr a'"
    "map (\<lambda>e. load (snd e)) es = map Inr as'" "p a'" "list_all p as'"
    by (cases as) (auto simp: e)
  have "forEach_loop (\<lambda>log a. (p a, log @ [a])) (es @ (k, v) # post) (log0 @ [a']) =
      (None, (log0 @ [a']) @ as' @ [a])"
    using as Cons.prems by (intro Cons.IH)
  then show ?case
    using as by (simp add: e load_def [symmetric])
qed

lemma loop_abort:
  "map (\<lambda>e. load (snd e)) pre = map Inr as \<Longrightarrow> list_all p as \<Longrightarrow> load v = Inl err \<Longrightarrow>
   forEach_loop (\<lambda>log a. (p a, log @ [a])) (pre @ (k, v) # post) log0 = (Some err, log0 @ as)"
proof (induction pre arbitrary: as log0)
  case Nil
  then show ?case by (simp add: load_def [symmetric])
next
  case (Cons e es)
  obtain k' v' where e: "e = (k', v')" by (cases e)
  from Cons.prems obtain a' as' where as: "as = a' # as'" "load v' = Inr a'"
    "map (\<lambda>e. load (snd e)) es = map Inr as'" "p a'" "list_all p as'"
    by (cases as) (auto simp: e)
  have "forEach_loop (\<lambda>log a. (p a, log @ [a])) (es @ (k, v) # post) (log0 @ [a']) =
      (Some err, (log0 @ [a']) @ as')"
    using as Cons.prems by (intro Cons.IH)
  then show ?case
    using as by (simp add: e load_def [symmetric])
qed

lemma distinct_keys_sort_key:
  "distinct (map fst xs) \<Longrightarrow> distinct (map fst (sort_key fst xs))"
proof -
  assume d: "distinct (map fst xs)"
  have "card (set (map fst (sort_key fst xs))) = card (set (map fst xs))" by simp
  also have "\<dots> = length (map fst xs)" using d by (rule distinct_card)
  also have "\<dots> = length (map fst (sort_key fst xs))" by simp
  finally show ?thesis by (rule card_distinct)
qed

lemma cursor_entries:
  assumes "auth_Cursor t pred = Inr es"
  shows "sorted (map fst es)" 
    and "set es \<subseteq> set (auth_bucket t)"
    and "distinct (map fst (auth_bucket t)) \<Longrightarrow> sorted_wrt (<) (map fst es)"
    and "pred = None \<or> \<not> hint_honoured t \<Longrightarrow> es = sort_key fst (auth_bucket t)"
proof -
  let ?P = "\<lambda>(k, v). case pred of None \<Rightarrow> True | Some p \<Rightarrow> if hint_honoured t then p k v else True"
  have es: "es = filter ?P (sort_key fst (auth_bucket t))"
    using assms by (cases "fails t (OpCursor authBucket)") (auto simp: auth_Cursor_def)
  show s: "sorted (map fst es)"
    unfolding es by (intro sorted_filter sorted_sort_key)
  show "set es \<subseteq> set (auth_bucket t)"
    unfolding es by auto
  show "sorted_wrt (<) (map fst es)" if "distinct (map fst (auth_bucket t))"
  proof -
    have "distinct (map fst es)"
      unfolding es using distinct_keys_sort_key [OF that] by (rule distinct_map_filter)
    with s show ?thesis by (simp add: strict_sorted_iff)
  qed
  show "es = sort_key fst (auth_bucket t)" if "pred = None \<or> \<not> hint_honoured t"
    unfolding es using that by (auto split: option.splits intro: filter_True)
qed


lemma create_ok:
  assumes "Valid (ID a)" and "Status a = Active \<or> Status a = Inactive"
    and "fails t = (\<lambda>_. None)" and "map_of (auth_index t) (Token a) = None"
  shows "CreateAuthorization g t a =
     (None,
      t\<lparr>auth_index := AList.update (Token a) (id_text (ID a)) (auth_index t),
        auth_bucket := AList.update (id_text (ID a)) (Object (json_members a)) (auth_bucket t)\<rparr>,
      a)"
  using assms
  by (simp add: CreateAuthorization_def encode_valid_status Encode_def
      authIndexBucket_def tx_Bucket_def uniqueAuthToken_def unique_def index_Get_def
      IsNotFound_def index_Put_def auth_Put_def authIndexKey_def)

lemma id_text_2: "id_text 2 = ''0000000000000002''"
  by (simp add: id_text_def hexdigit_def hex_of_numeral)

lemma store_B_eq:
  "store_B h =
      \<lparr>auth_bucket = [(''0000000000000002'', Object (json_members record_B))],
       auth_index = [(''b'', ''0000000000000002'')],
       fails = (\<lambda>_. None), hint_honoured = h\<rparr>"
  by (simp add: store_B_def empty_tx_def create_ok record_B_fields Valid_def id_text_2)

lemma store_AB_eq:
  "store_AB h =
      \<lparr>auth_bucket = [(''0000000000000002'', Object (json_members record_B)),
                      (''0000000000000001'', Object (json_members record_A))],
       auth_index = [(''b'', ''0000000000000002''), (''a'', ''0000000000000001'')],
       fails = (\<lambda>_. None), hint_honoured = h\<rparr>"
  by (simp add: store_AB_def store_B_eq create_ok record_A_fields Valid_def id_text_1)

lemma load_B: "load (Object (json_members record_B)) = Inr record_B"
  by (simp add: load_json_members record_B_fields status_facts)

lemma cursor_AB:
  "auth_Cursor (store_AB h) None =
     Inr [(''0000000000000001'', Object (json_members record_A)),
          (''0000000000000002'', Object (json_members record_B))]"
  by (simp add: auth_Cursor_def store_AB_eq)

lemma get_marshalled_id:
  "jsonp_GetID (Object (json_members a)) ''id'' = Decode (id_text (ID a))"
  by (simp add: jsonp_GetID_def jsonparser_Get_def json_members_def escape_id_text)

lemma get_marshalled_orgID:
  "jsonp_GetID (Object (json_members a)) ''orgID'' = Decode (id_text (OrgID a))"
  by (simp add: jsonp_GetID_def jsonparser_Get_def json_members_def escape_id_text)

lemma get_marshalled_token:
  "jsonparser_Get (Object (json_members a)) ''token'' = Inr (json_escape (Token a))"
  by (simp add: jsonparser_Get_def json_members_def)

lemma Decode_id_text_cases:
  "Decode (id_text i) = (if Valid i then Inr i else Inl ErrInvalidID)"
  by (simp add: Decode_def id_of_text_id_text length_id_text)

lemma get_marshalled_userID:
  "jsonp_GetOptionalID (Object (json_members a)) ''userID'' =
     (if Valid (UserID a) then (UserID a, True, None) else (0, False, Some ErrInvalidID))"
  by (simp add: jsonp_GetOptionalID_def json_members_def escape_id_text Decode_id_text_cases)

lemma escape_a: "json_escape ''a'' = ''a''" "json_escape ''b'' = ''b''"
  by (simp_all add: json_escape_def escape_char_def json_plain_def quote_char_def backslash_def)

lemma update_fresh: "map_of al k = None \<Longrightarrow> AList.update k v al = al @ [(k, v)]"
  by (induction al) (auto split: if_splits)

lemma encode_cases:
  assumes "encodeAuthorization a = Inr (v, a2)"
  shows "v = Object (json_members a2)" "Status a2 \<noteq> []" "ID a2 = ID a" "Token a2 = Token a"
  using assms status_facts
  by (auto simp: encodeAuthorization_def json_Marshal_def Let_def split: if_splits)

lemma unique_token_free:
  assumes "uniqueAuthToken t a = None"
  shows "map_of (auth_index t) (Token a) = None"
  using assms
  by (auto simp: uniqueAuthToken_def unique_def index_Get_def IsNotFound_def authIndexKey_def
      Let_def split: option.splits if_splits)

lemma create_success:
  assumes "CreateAuthorization g t a = (None, t', a')"
  shows "t' = t \<or>
    (map_of (auth_index t) (Token a') = None \<and> Valid (ID a') \<and> Status a' \<noteq> [] \<and>
     t' = t\<lparr>auth_index := AList.update (Token a') (id_text (ID a')) (auth_index t),
            auth_bucket := AList.update (id_text (ID a')) (Object (json_members a'))
              (auth_bucket t)\<rparr>)"
proof (cases "\<not> Valid (ID a) \<and> (\<exists>e. g t = Inl e)")
  case True
  then show ?thesis using assms by (auto simp: CreateAuthorization_def)
next
  case False
  define a1 where "a1 = (if Valid (ID a) then a else a\<lparr>ID := (case g t of Inr i \<Rightarrow> i | Inl e \<Rightarrow> 0)\<rparr>)"
  have start: "(if \<not> Valid (ID a) then
              (case g t of Inl e \<Rightarrow> None | Inr i \<Rightarrow> Some (a\<lparr>ID := i\<rparr>))
            else Some a) = Some a1"
    using False by (auto simp: a1_def split: sum.splits)
  from assms obtain v where enc: "encodeAuthorization a1 = Inr (v, a')"
    and idv: "Encode (ID a') \<noteq> Inl ErrInvalidID"
    and uq: "uniqueAuthToken t a' = None"
    and t': "t' = t\<lparr>auth_index := AList.update (Token a') (id_text (ID a')) (auth_index t),
            auth_bucket := AList.update (id_text (ID a')) v (auth_bucket t)\<rparr>"
    unfolding CreateAuthorization_def start
    by (auto simp: Encode_def index_Put_def auth_Put_def authIndexKey_def
        split: sum.splits option.splits prod.splits if_splits)
  then show ?thesis
    using encode_cases [OF enc] unique_token_free [OF uq] by (auto simp: Encode_def)
qed

section \<open>The claims\<close>

text \<open>
  Claim C1. \<^verbatim>\<open>GetAuthorizationByID(id)\<close> is to return the record stored under the
  encoded identifier, and for a record persisted by \<^verbatim>\<open>CreateAuthorization\<close> it is to
  succeed and return that record. The code does not: record A is created in the empty
  store without error, and the lookup of its identifier answers with an Invalid error,
  because the lookup decodes into a \<^verbatim>\<open>nil\<close> pointer. No lookup at all returns a
  record.
\<close>

theorem GetAuthorizationByID_fails_on_stored_record:
  "CreateAuthorization no_generator (empty_tx h) record_A = (None, store_A h, record_A) \<and>
   GetAuthorizationByID (store_A h) (ID record_A) =
     Inl (Error EInvalid [] (Some InvalidUnmarshalError)) \<and>
   GetAuthorizationByID t i \<noteq> Inr a"
proof -
  have "ID record_A = 1"
    by (simp add: record_A_def)
  then show ?thesis
    by (simp add: create_A store_A_eq [symmetric] get_A GetAuthorizationByID_no_record)
qed

text \<open>
  Claim C3. Deleting an identifier that has no record returns success and changes
  nothing; deleting an existing record is to remove its index entry and its primary
  entry, after which both lookups answer Not-Found. The code does the first for every
  identifier, stored or not: the delete of the stored record A returns success and leaves
  the store as it was, and both lookups still reach the record's bytes (and fail on them
  with an Invalid error, not with Not-Found).
\<close>

theorem DeleteAuthorization_removes_nothing:
  "DeleteAuthorization t i = (None, t) \<and>
   DeleteAuthorization (store_A h) 1 = (None, store_A h) \<and>
   map_of (auth_bucket (store_A h)) (id_text 1) = Some (Object (json_members record_A)) \<and>
   map_of (auth_index (store_A h)) ''a'' = Some (id_text 1) \<and>
   GetAuthorizationByID (store_A h) 1 \<noteq> Inl ErrAuthNotFound \<and>
   GetAuthorizationByToken (store_A h) ''a'' \<noteq>
     Inl (Error ENotFound ''authorization not found'' None)"
proof -
  have del: "DeleteAuthorization t' i' = (None, t')" for t' i'
    by (simp add: DeleteAuthorization_def GetAuthorizationByID_no_record split: sum.splits)
  show ?thesis
    by (simp add: del get_A get_token_A id_text_1) (simp add: store_A_eq)
qed

text \<open>
  Claim C10. When the record has no valid identifier and the identifier generator
  returns an error, \<^verbatim>\<open>CreateAuthorization\<close> returns \<^verbatim>\<open>nil\<close>, writes to neither
  bucket and leaves the record as it was, without an identifier.
\<close>

theorem CreateAuthorization_generator_error:
  assumes "\<not> Valid (ID a)" and "generateSafeID t = Inl e"
  shows "CreateAuthorization generateSafeID t a = (None, t, a)"
  using assms by (simp add: CreateAuthorization_def)

theorem CreateAuthorization_generator_error_witness:
  "\<not> Valid (ID zero_authorization) \<and>
   no_generator (empty_tx True) = Inl (StoreError ''no identifier'') \<and>
   CreateAuthorization no_generator (empty_tx True) zero_authorization =
     (None, empty_tx True, zero_authorization)"
proof -
  have v: "\<not> Valid (ID zero_authorization)"
    by (simp add: Valid_def zero_authorization_def)
  have g: "no_generator (empty_tx True) = Inl (StoreError ''no identifier'')"
    by (simp add: no_generator_def)
  show ?thesis
    using v g
      CreateAuthorization_generator_error
        [of zero_authorization no_generator "empty_tx True" "StoreError ''no identifier''"]
    by simp
qed

text \<open>
  Claim C7. For a record whose status is Active, Inactive or empty, decoding what
  \<^verbatim>\<open>encodeAuthorization\<close> wrote gives the record back, with an empty status turned
  into Active (already in the record the encoder leaves behind its pointer); a record of
  any other status is refused with an Invalid error and nothing is encoded. On the read
  path, stored bytes whose status is empty decode to an Active record. The pointer handed
  to the decoder points to an allocated struct \<open>a0\<close>, whatever it holds.
\<close>

theorem encode_decode_roundtrip:
  "(let r' = (if Status r = [] then r\<lparr>Status := Active\<rparr> else r) in
    if Status r = Active \<or> Status r = Inactive \<or> Status r = []
    then \<exists>v. encodeAuthorization r = Inr (v, r') \<and> decodeAuthorization v (Some a0) = Inr r'
    else encodeAuthorization r = Inl (Error EInvalid ''unknown authorization status'' None)) \<and>
   decodeAuthorization (Object (json_members (r\<lparr>Status := []\<rparr>))) (Some a0) =
     Inr (r\<lparr>Status := Active\<rparr>)"
proof -
  have bad: "encodeAuthorization r = Inl (Error EInvalid ''unknown authorization status'' None)"
    if "Status r \<noteq> Active" "Status r \<noteq> Inactive" "Status r \<noteq> []"
    using that by (simp add: encodeAuthorization_def)
  have good: "encodeAuthorization r = Inr (Object (json_members r), r)"
    if "Status r = Active \<or> Status r = Inactive"
    using that by (rule encode_valid_status)
  have empty: "encodeAuthorization r =
      Inr (Object (json_members (r\<lparr>Status := Active\<rparr>)), r\<lparr>Status := Active\<rparr>)"
    if "Status r = []"
    using that status_facts by (simp add: encodeAuthorization_def json_Marshal_def Let_def)
  have read: "decodeAuthorization (Object (json_members (r\<lparr>Status := []\<rparr>))) (Some a0) =
     Inr (r\<lparr>Status := Active\<rparr>)"
    by (simp add: decode_json_members)
  show ?thesis
    using bad good empty read status_facts
    by (auto simp: Let_def decode_json_members)
qed

theorem encode_decode_roundtrip_witness:
  "(\<exists>v. encodeAuthorization record_A = Inr (v, record_A) \<and>
        decodeAuthorization v (Some zero_authorization) = Inr record_A) \<and>
   encodeAuthorization (record_A\<lparr>Status := ''bogus''\<rparr>) =
     Inl (Error EInvalid ''unknown authorization status'' None)"
proof -
  have a: "Status record_A = Active" "Status record_A \<noteq> []"
    by (simp_all add: record_A_def Active_def)
  have b: "Status (record_A\<lparr>Status := ''bogus''\<rparr>) \<noteq> Active"
    "Status (record_A\<lparr>Status := ''bogus''\<rparr>) \<noteq> Inactive"
    "Status (record_A\<lparr>Status := ''bogus''\<rparr>) \<noteq> []"
    by (simp_all add: Active_def Inactive_def)
  show ?thesis
    using a b encode_decode_roundtrip [of record_A zero_authorization]
      encode_decode_roundtrip [of "record_A\<lparr>Status := ''bogus''\<rparr>" zero_authorization]
    by (simp add: Let_def)
qed

text \<open>
  Claim C2. After a successful \<^verbatim>\<open>UpdateAuthorization(id, upd)\<close> the persisted record
  is to carry the status and description of \<open>upd\<close> and a new updated-at time, and to be
  the record returned. The code cannot get there. No update returns a record, because its
  lookup never does: updating the stored record A ends in a Not-Found error and writes
  nothing. And the body that follows the lookup, run on record A as loaded, encodes the
  record before it applies the update: it returns the updated record but writes the old
  bytes, so the store still spells record A with its old status, description and time.
\<close>

theorem UpdateAuthorization_never_applies:
  "fst (UpdateAuthorization t i upd now) \<noteq> Inr a \<and>
   UpdateAuthorization (store_A h) 1
       \<lparr>UpdStatus = Some Inactive, UpdDescription = Some ''x''\<rparr> now =
     (Inl (Error ENotFound [] (Some (Error EInvalid [] (Some InvalidUnmarshalError)))),
      store_A h) \<and>
   UpdateAuthorization_found (store_A h) record_A
       \<lparr>UpdStatus = Some Inactive, UpdDescription = Some ''x''\<rparr> now =
     (Inr (record_A\<lparr>Status := Inactive, Description := ''x'', UpdatedAt := now\<rparr>),
      store_A h) \<and>
   map_of (auth_bucket (store_A h)) (id_text 1) = Some (Object (json_members record_A)) \<and>
   load (Object (json_members record_A)) = Inr record_A"
proof -
  have 1: "fst (UpdateAuthorization t i upd now) \<noteq> Inr a"
    by (simp add: UpdateAuthorization_def GetAuthorizationByID_no_record split: sum.splits)
  have 2: "UpdateAuthorization (store_A h) 1
       \<lparr>UpdStatus = Some Inactive, UpdDescription = Some ''x''\<rparr> now =
     (Inl (Error ENotFound [] (Some (Error EInvalid [] (Some InvalidUnmarshalError)))),
      store_A h)"
    by (simp add: UpdateAuthorization_def get_A)
  have 3: "UpdateAuthorization_found (store_A h) record_A
       \<lparr>UpdStatus = Some Inactive, UpdDescription = Some ''x''\<rparr> now =
     (Inr (record_A\<lparr>Status := Inactive, Description := ''x'', UpdatedAt := now\<rparr>),
      store_A h)"
    by (simp add: UpdateAuthorization_found_def encode_A record_A_fields Encode_def Valid_def
        id_text_1 authIndexBucket_def tx_Bucket_def index_Put_def auth_Put_def
        authIndexKey_def SetUpdatedAt_def store_A_eq)
  have 4: "map_of (auth_bucket (store_A h)) (id_text 1) = Some (Object (json_members record_A))"
    by (simp add: store_A_eq id_text_1)
  show ?thesis
    using 1 2 3 4 load_A by simp
qed

text \<open>
  Claim C9. \<^verbatim>\<open>forEachAuthorization\<close> walks the entries its cursor yields, which are
  entries of the primary bucket in ascending key order (strictly ascending, so each at
  most once, when the bucket holds each key once; all of them when no hint predicate is
  given). The callback here records every record it is called with and answers \<open>p\<close>. The
  walk decodes each entry and calls the callback: when all entries decode and the
  callback accepts all, all are visited in order; at the first record the callback
  rejects it stops, that record being the last one visited; at the first entry that fails
  to decode it stops with that error, the entry and everything after it unvisited.
\<close>

theorem forEachAuthorization_single_pass:
  assumes "tx_Bucket t authBucket = None" and "auth_Cursor t pred = Inr es"
  shows
    "sorted (map fst es) \<and> set es \<subseteq> set (auth_bucket t) \<and>
     (distinct (map fst (auth_bucket t)) \<longrightarrow> sorted_wrt (<) (map fst es)) \<and>
     (pred = None \<longrightarrow> es = sort_key fst (auth_bucket t)) \<and>
     (\<forall>as. map (\<lambda>e. load (snd e)) es = map Inr as \<and> list_all p as \<longrightarrow>
        forEachAuthorization t pred (\<lambda>log a. (p a, log @ [a])) [] = (None, as)) \<and>
     (\<forall>pre k v post as a.
        es = pre @ (k, v) # post \<and> map (\<lambda>e. load (snd e)) pre = map Inr as \<and>
        list_all p as \<and> load v = Inr a \<and> \<not> p a \<longrightarrow>
        forEachAuthorization t pred (\<lambda>log a. (p a, log @ [a])) [] = (None, as @ [a])) \<and>
     (\<forall>pre k v post as err.
        es = pre @ (k, v) # post \<and> map (\<lambda>e. load (snd e)) pre = map Inr as \<and>
        list_all p as \<and> load v = Inl err \<longrightarrow>
        forEachAuthorization t pred (\<lambda>log a. (p a, log @ [a])) [] = (Some err, as))"
proof -
  have run: "forEachAuthorization t pred fn s = forEach_loop fn es s" for fn :: "authorization list \<Rightarrow> authorization \<Rightarrow> bool \<times> authorization list" and s
    using assms by (simp add: forEachAuthorization_def)
  have order: "sorted (map fst es)" "set es \<subseteq> set (auth_bucket t)"
    "distinct (map fst (auth_bucket t)) \<longrightarrow> sorted_wrt (<) (map fst es)"
    "pred = None \<longrightarrow> es = sort_key fst (auth_bucket t)"
    using cursor_entries [OF assms(2)] by simp_all
  have all: "forEachAuthorization t pred (\<lambda>log a. (p a, log @ [a])) [] = (None, as)"
    if "map (\<lambda>e. load (snd e)) es = map Inr as" "list_all p as" for as
    using loop_all [OF that, of "[]"] by (simp add: run)
  have stop: "forEachAuthorization t pred (\<lambda>log a. (p a, log @ [a])) [] = (None, as @ [a])"
    if "es = pre @ (k, v) # post" "map (\<lambda>e. load (snd e)) pre = map Inr as" "list_all p as"
      "load v = Inr a" "\<not> p a" for pre k v post as a
    using loop_stop [OF that(2-5), of k post "[]"] by (simp add: run that(1))
  have abort: "forEachAuthorization t pred (\<lambda>log a. (p a, log @ [a])) [] = (Some err, as)"
    if "es = pre @ (k, v) # post" "map (\<lambda>e. load (snd e)) pre = map Inr as" "list_all p as"
      "load v = Inl err" for pre k v post as err
    using loop_abort [OF that(2-4), of k post "[]"] by (simp add: run that(1))
  show ?thesis
    using order all stop abort by blast
qed

theorem forEachAuthorization_single_pass_witness:
  "tx_Bucket (store_AB True) authBucket = None \<and>
   auth_Cursor (store_AB True) None =
     Inr [(''0000000000000001'', Object (json_members record_A)),
          (''0000000000000002'', Object (json_members record_B))] \<and>
   forEachAuthorization (store_AB True) None (\<lambda>log a. (Token a \<noteq> ''a'', log @ [a])) [] =
     (None, [record_A]) \<and>
   forEachAuthorization (store_AB True) None (\<lambda>log a. (Token a \<noteq> ''c'', log @ [a])) [] =
     (None, [record_A, record_B])"
proof -
  let ?es = "[(''0000000000000001'', Object (json_members record_A)),
          (''0000000000000002'', Object (json_members record_B))]"
  have b: "tx_Bucket (store_AB True) authBucket = None"
    by (simp add: tx_Bucket_def store_AB_eq)
  have c: "auth_Cursor (store_AB True) None = Inr ?es"
    by (rule cursor_AB)
  have stop: "?es = [] @ (''0000000000000001'', Object (json_members record_A)) #
      [(''0000000000000002'', Object (json_members record_B))] \<and>
    map (\<lambda>e. load (snd e)) [] = map Inr [] \<and> list_all (\<lambda>a. Token a \<noteq> ''a'') [] \<and>
    load (Object (json_members record_A)) = Inr record_A \<and> \<not> Token record_A \<noteq> ''a''"
    by (simp add: load_A record_A_fields)
  have all: "map (\<lambda>e. load (snd e)) ?es = map Inr [record_A, record_B] \<and>
    list_all (\<lambda>a. Token a \<noteq> ''c'') [record_A, record_B]"
    by (simp add: load_A load_B record_A_fields record_B_fields)
  from forEachAuthorization_single_pass [OF b c, of "\<lambda>a. Token a \<noteq> ''a''"] stop
  have 1: "forEachAuthorization (store_AB True) None (\<lambda>log a. (Token a \<noteq> ''a'', log @ [a])) [] =
     (None, [] @ [record_A])"
    by blast
  from forEachAuthorization_single_pass [OF b c, of "\<lambda>a. Token a \<noteq> ''c''"] all
  have 2: "forEachAuthorization (store_AB True) None (\<lambda>log a. (Token a \<noteq> ''c'', log @ [a])) [] =
     (None, [record_A, record_B])"
    by blast
  show ?thesis using b c 1 2 by simp
qed

text \<open>
  Claim C6. The filter on the decoded record looks at the filter's fields in strict
  precedence: the identifier if set, else the token, else organization and user together
  when both are set, else the organization, else the user, else everything matches; a
  field later in this order is ignored once an earlier one is set. In the store that holds
  A(id=1, token a, org 10, user 100) and B(id=2, token b, org 10, user 200), whether or
  not the store honours the hint predicate, \<^verbatim>\<open>ListAuthorizations\<close> returns A and B for
  the organization 10, A alone for organization 10 with user 100, A alone for the token
  a whatever organization and user the filter also names, and A and B for the empty
  filter.
\<close>

theorem filter_precedence:
  "filterAuthorizationsFn
     \<lparr>FilterID = Some i, FilterToken = tk, FilterOrgID = og, FilterUserID = us\<rparr> a = (ID a = i) \<and>
   filterAuthorizationsFn
     \<lparr>FilterID = None, FilterToken = Some tok, FilterOrgID = og, FilterUserID = us\<rparr> a =
       (Token a = tok) \<and>
   filterAuthorizationsFn
     \<lparr>FilterID = None, FilterToken = None, FilterOrgID = Some org, FilterUserID = Some usr\<rparr> a =
       (OrgID a = org \<and> UserID a = usr) \<and>
   filterAuthorizationsFn
     \<lparr>FilterID = None, FilterToken = None, FilterOrgID = Some org, FilterUserID = None\<rparr> a =
       (OrgID a = org) \<and>
   filterAuthorizationsFn
     \<lparr>FilterID = None, FilterToken = None, FilterOrgID = None, FilterUserID = Some usr\<rparr> a =
       (UserID a = usr) \<and>
   filterAuthorizationsFn
     \<lparr>FilterID = None, FilterToken = None, FilterOrgID = None, FilterUserID = None\<rparr> a \<and>
   ListAuthorizations (store_AB h)
     \<lparr>FilterID = None, FilterToken = None, FilterOrgID = Some 10, FilterUserID = None\<rparr> =
       Inr [record_A, record_B] \<and>
   ListAuthorizations (store_AB h)
     \<lparr>FilterID = None, FilterToken = None, FilterOrgID = Some 10, FilterUserID = Some 100\<rparr> =
       Inr [record_A] \<and>
   ListAuthorizations (store_AB h)
     \<lparr>FilterID = None, FilterToken = Some ''a'', FilterOrgID = og, FilterUserID = us\<rparr> =
       Inr [record_A] \<and>
   ListAuthorizations (store_AB h)
     \<lparr>FilterID = None, FilterToken = None, FilterOrgID = None, FilterUserID = None\<rparr> =
       Inr [record_A, record_B]"
proof -
  have f: "filterAuthorizationsFn
     \<lparr>FilterID = Some i, FilterToken = tk, FilterOrgID = og, FilterUserID = us\<rparr> a = (ID a = i)"
    "filterAuthorizationsFn
     \<lparr>FilterID = None, FilterToken = Some tok, FilterOrgID = og, FilterUserID = us\<rparr> a =
       (Token a = tok)"
    "filterAuthorizationsFn
     \<lparr>FilterID = None, FilterToken = None, FilterOrgID = Some org, FilterUserID = Some usr\<rparr> a =
       (OrgID a = org \<and> UserID a = usr)"
    "filterAuthorizationsFn
     \<lparr>FilterID = None, FilterToken = None, FilterOrgID = Some org, FilterUserID = None\<rparr> a =
       (OrgID a = org)"
    "filterAuthorizationsFn
     \<lparr>FilterID = None, FilterToken = None, FilterOrgID = None, FilterUserID = Some usr\<rparr> a =
       (UserID a = usr)"
    "filterAuthorizationsFn
     \<lparr>FilterID = None, FilterToken = None, FilterOrgID = None, FilterUserID = None\<rparr> a"
    by (simp_all add: filterAuthorizationsFn_def)
  have v: "Valid 10" "Valid 100" "Valid 200"
    by (simp_all add: Valid_def)
  note ev = ListAuthorizations_def forEachAuthorization_def tx_Bucket_def auth_Cursor_def
    store_AB_eq authorizationsPredicateFn_def filterAuthorizationsFn_def
    get_marshalled_orgID get_marshalled_userID get_marshalled_token Decode_id_text_cases
    escape_a record_A_fields record_B_fields v load_A [unfolded load_def]
    load_B [unfolded load_def]
  have l1: "ListAuthorizations (store_AB h)
     \<lparr>FilterID = None, FilterToken = None, FilterOrgID = Some 10, FilterUserID = None\<rparr> =
       Inr [record_A, record_B]"
    by (cases h) (simp_all add: ev)
  have l2: "ListAuthorizations (store_AB h)
     \<lparr>FilterID = None, FilterToken = None, FilterOrgID = Some 10, FilterUserID = Some 100\<rparr> =
       Inr [record_A]"
    by (cases h) (simp_all add: ev)
  have l3: "ListAuthorizations (store_AB h)
     \<lparr>FilterID = None, FilterToken = Some ''a'', FilterOrgID = og, FilterUserID = us\<rparr> =
       Inr [record_A]"
    by (cases h) (simp_all add: ev)
  have l4: "ListAuthorizations (store_AB h)
     \<lparr>FilterID = None, FilterToken = None, FilterOrgID = None, FilterUserID = None\<rparr> =
       Inr [record_A, record_B]"
    by (cases h) (simp_all add: ev)
  show ?thesis
    using f l1 l2 l3 l4 by simp
qed

end
